theory Spec2Isabelle
  imports Complex_Main
begin

section \<open>Data model of BarChart.js\<close>

text \<open>
  The Flow type \<open>number\<close> is modelled by \<open>real\<close>: the component only passes numbers on,
  tests them for truthiness (\<open>x \<noteq> 0\<close>) and adds margins to the plot size.
\<close>

type_synonym number = real

text \<open>
  Modelled from the spec: \<open>ChartData\<close>, declared in utils/commonTypes, is a named series
  with an ordered list of (category, value) points and a disabled flag. A point also
  carries the series index and key that \<open>chart.mapSeriesToData\<close> attaches to it.
\<close>

record Point =
  point_x :: string
  point_y :: number
  point_series :: "nat option"
  point_key :: "string option"

record ChartData =
  key :: string
  series_values :: "Point list"
  disabled :: bool

record Margin =
  margin_top :: number
  margin_left :: number
  margin_bottom :: number
  margin_right :: number

record AxisConfig =
  showXAxis :: bool
  showXAxisLabel :: bool
  xLabel :: string
  xLabelPosition :: string
  showYAxis :: bool
  showYAxisLabel :: bool
  yLabel :: string
  yLabelPosition :: string

record ColorScale =
  color_from :: string
  color_to :: string

subsection \<open>The event dispatcher (d3-dispatch)\<close>

text \<open>
  The three callbacks that \<open>updateChart\<close> registers, and callbacks of the host:
  \<open>SetStateData\<close> is \<open>d => this.setState({ data: d })\<close>, \<open>Noop\<close> is \<open>() => {}\<close>.
\<close>

datatype handler = SetStateData | Noop | HostHandler nat

text \<open>
  A dispatcher holds, for each event type it was created with, the list of its named
  callbacks in registration order. \<open>on(typename, callback)\<close> with a type name that has no
  \<open>.name\<close> suffix registers under the empty name; each (type, name) pair holds one
  callback, the latest. A type the dispatcher was not created with raises
  \<open>Error("unknown type: ...")\<close>.
\<close>

type_synonym callbacks = "(string \<times> handler) list"
type_synonym dispatcher = "string \<rightharpoonup> callbacks"

datatype error = TypeError | UnknownType string

definition dispatch :: "string list \<Rightarrow> dispatcher" where
  "dispatch types = map_of (map (\<lambda>t. (t, [])) types)"

definition set_callback :: "callbacks \<Rightarrow> string \<Rightarrow> handler \<Rightarrow> callbacks" where
  "set_callback cbs name cb = filter (\<lambda>c. fst c \<noteq> name) cbs @ [(name, cb)]"

definition get_callback :: "callbacks \<Rightarrow> string \<Rightarrow> handler option" where
  "get_callback cbs name = map_of cbs name"

definition dispatcher_on :: "dispatcher \<Rightarrow> string \<Rightarrow> string \<Rightarrow> handler \<Rightarrow> error + dispatcher" where
  "dispatcher_on disp t name cb =
     (case disp t of
        None \<Rightarrow> Inl (UnknownType t)
      | Some cbs \<Rightarrow> Inr (disp(t \<mapsto> set_callback cbs name cb)))"

definition dispatcher_get :: "dispatcher \<Rightarrow> string \<Rightarrow> string \<Rightarrow> handler option" where
  "dispatcher_get disp t name =
     (case disp t of None \<Rightarrow> None | Some cbs \<Rightarrow> get_callback cbs name)"

subsection \<open>Props and state\<close>

record Props =
  data :: "ChartData list option"
  width :: number
  height :: number
  margin :: Margin
  showLegend :: bool
  axisConfig :: AxisConfig
  showGridX :: bool
  showGridY :: bool
  xScaleType :: string
  yScaleType :: string
  tickFormat :: string
  useColorScale :: bool
  colorScale :: ColorScale
  colorSchemeCategory :: "string list"
  barSpacing :: number
  animate :: bool
  duration :: number
  delay :: number
  fluid :: bool
  noDataMessage :: string
  eventDispatcher :: dispatcher

text \<open>
  \<open>static defaultProps\<close>: there is no default for \<open>data\<close>, so a host that supplies none
  leaves it \<open>undefined\<close> (\<open>None\<close>).
\<close>

definition defaultProps :: Props where
  "defaultProps =
     \<lparr> data = None,
       width = 600,
       height = 200,
       margin = \<lparr> margin_top = 20, margin_left = 40, margin_bottom = 30, margin_right = 10 \<rparr>,
       showLegend = True,
       axisConfig =
         \<lparr> showXAxis = True, showXAxisLabel = True, xLabel = ''X Axis'',
           xLabelPosition = ''right'', showYAxis = True, showYAxisLabel = True,
           yLabel = ''Y Axis'', yLabelPosition = ''top'' \<rparr>,
       showGridX = True,
       showGridY = True,
       xScaleType = ''band'',
       yScaleType = ''linear'',
       tickFormat = ''.0f'',
       useColorScale = True,
       colorScale = \<lparr> color_from = ''#008793'', color_to = ''#00bf72'' \<rparr>,
       colorSchemeCategory = [],
       barSpacing = 5 / 100,
       animate = True,
       duration = 500,
       delay = 50,
       fluid = True,
       noDataMessage = ''No Data Available.'',
       eventDispatcher = dispatch [''legendClick'', ''barClick'', ''barMouseOver'', ''barMouseOut''] \<rparr>"

text \<open>
  The state's \<open>color\<close> starts as \<open>() => undefined\<close> and later holds what
  \<open>scales.calculateColorScale\<close> returned.
\<close>

datatype 'c color = ConstUndefined | Computed 'c

record 'c State =
  state_data :: "ChartData list"
  state_width :: number
  state_color :: "'c color"

text \<open>
  The two DOM nodes the component keeps references to: the \<open>div.bar-chart\<close> container,
  read for its \<open>offsetWidth\<close>, and the \<open>svg\<close>, whose size attributes and whose
  \<open>.wrapper\<close> descendants' transforms \<open>updateChart\<close> writes.
\<close>

record HTMLElement =
  offsetWidth :: number

record SVGElement =
  attr_width :: "number option"
  attr_height :: "number option"
  wrapper_transform :: "(number \<times> number) option list"

text \<open>
  A mounted instance: props, state, the two refs, and whether \<open>this.updateDimensions\<close>
  is among the window's resize listeners.
\<close>

record 'c BarChart =
  props :: Props
  state :: "'c State"
  barChart :: "HTMLElement option"
  svg :: "SVGElement option"
  resize_listener :: bool

subsection \<open>The imported utilities\<close>

record ('x, 'y) ChartValues =
  cv_w :: number
  cv_h :: number
  cv_m :: Margin
  cv_x :: 'x
  cv_y :: 'y

text \<open>
  \<open>chart.calculateChartValues\<close> and \<open>scales.calculateColorScale\<close> live in utils/chart and
  utils/scales. The component is modelled for any pair of them; the scales and the color
  function they return are values of the type parameters \<open>'x\<close>, \<open>'y\<close> and \<open>'c\<close>.
  Both are taken to return on every input: the errors of the model are those the
  component's own code raises.
\<close>

record ('x, 'y, 'c) utils =
  calculateChartValues ::
    "ChartData list \<Rightarrow> number \<Rightarrow> number \<Rightarrow> Margin \<Rightarrow> string \<Rightarrow> string \<Rightarrow> ('x, 'y) ChartValues"
  calculateColorScale :: "nat \<Rightarrow> bool \<Rightarrow> ColorScale \<Rightarrow> string list \<Rightarrow> 'c"

text \<open>
  Modelled from the spec: \<open>chart.mapSeriesToData\<close> (utils/chart) attaches the series index
  and key to each data point of each series, in place; the series themselves, their
  order and their disabled flags stay as they are.
\<close>

fun mapSeries :: "nat \<Rightarrow> ChartData list \<Rightarrow> ChartData list" where
  "mapSeries i [] = []"
| "mapSeries i (s # ss) =
     s\<lparr>series_values :=
         map (\<lambda>p. p\<lparr>point_series := Some i, point_key := Some (key s)\<rparr>) (series_values s)\<rparr>
     # mapSeries (Suc i) ss"

definition mapSeriesToData :: "ChartData list \<Rightarrow> ChartData list" where
  "mapSeriesToData ds = mapSeries 0 ds"

section \<open>The component\<close>

subsection \<open>Construction and lifecycle methods\<close>

text \<open>The class field \<open>state = { data: this.props.data || [], ... }\<close>.\<close>

definition initialState :: "Props \<Rightarrow> 'c State" where
  "initialState p =
     \<lparr> state_data = (case data p of None \<Rightarrow> [] | Some d \<Rightarrow> d),
       state_width = (if fluid p then 0 else width p),
       state_color = ConstUndefined \<rparr>"

definition construct :: "Props \<Rightarrow> 'c BarChart" where
  "construct p =
     \<lparr> props = p, state = initialState p, barChart = None, svg = None,
       resize_listener = False \<rparr>"

text \<open>
  \<open>componentWillMount\<close> reads \<open>data.length\<close> of the prop, not of the state: on an
  \<open>undefined\<close> prop the property access raises a TypeError.
\<close>

definition componentWillMount :: "('x, 'y, 'c) utils \<Rightarrow> 'c BarChart \<Rightarrow> error + 'c BarChart" where
  "componentWillMount U c =
     (case data (props c) of
        None \<Rightarrow> Inl TypeError
      | Some d \<Rightarrow>
          Inr (c\<lparr>state := (state c)\<lparr>state_color :=
                 Computed (calculateColorScale U (length d) (useColorScale (props c))
                             (colorScale (props c)) (colorSchemeCategory (props c)))\<rparr>\<rparr>))"

text \<open>
  \<open>updateDimensions\<close>: \<open>(this.barChart && this.barChart.offsetWidth) || width\<close> is the
  measured width when the ref is set and the measure is not 0, else the prop.
\<close>

definition updateDimensions :: "'c BarChart \<Rightarrow> 'c BarChart" where
  "updateDimensions c =
     (if fluid (props c)
      then c\<lparr>state := (state c)\<lparr>state_width :=
               (case barChart c of
                  None \<Rightarrow> width (props c)
                | Some el \<Rightarrow> if offsetWidth el \<noteq> 0 then offsetWidth el else width (props c))\<rparr>\<rparr>
      else c)"

definition componentDidMount :: "'c BarChart \<Rightarrow> 'c BarChart" where
  "componentDidMount c = updateDimensions (c\<lparr>resize_listener := True\<rparr>)"

definition componentWillUnmount :: "'c BarChart \<Rightarrow> 'c BarChart" where
  "componentWillUnmount c = c\<lparr>resize_listener := False\<rparr>"

subsection \<open>updateChart\<close>

text \<open>
  The four \<open>eventDispatcher.on\<close> calls, in order; the first unknown type raises.
\<close>

definition register_handlers :: "dispatcher \<Rightarrow> error + dispatcher" where
  "register_handlers disp =
     (case dispatcher_on disp ''legendClick'' [] SetStateData of
        Inl e \<Rightarrow> Inl e
      | Inr d1 \<Rightarrow>
     (case dispatcher_on d1 ''barClick'' [] Noop of
        Inl e \<Rightarrow> Inl e
      | Inr d2 \<Rightarrow>
     (case dispatcher_on d2 ''barMouseOver'' [] Noop of
        Inl e \<Rightarrow> Inl e
      | Inr d3 \<Rightarrow> dispatcher_on d3 ''barMouseOut'' [] Noop)))"

text \<open>
  \<open>select(node)\<close> on an unset ref is an empty selection, so the attributes are written
  only once the \<open>svg\<close> ref is set. The data array is mutated in place and handed back
  beside the instance.
\<close>

definition updateChart ::
  "'c BarChart \<Rightarrow> ChartData list \<Rightarrow> number \<Rightarrow> number \<Rightarrow> Margin \<Rightarrow> error + ('c BarChart \<times> ChartData list)" where
  "updateChart c ds w h m =
     (let node = map_option
            (\<lambda>n. n\<lparr>attr_width := Some (w + margin_left m + margin_right m),
                   attr_height := Some (h + margin_top m + margin_bottom m),
                   wrapper_transform :=
                     map (\<lambda>_. Some (margin_left m, margin_top m)) (wrapper_transform n)\<rparr>)
            (svg c);
          ds' = mapSeriesToData ds
      in case register_handlers (eventDispatcher (props c)) of
           Inl e \<Rightarrow> Inl e
         | Inr disp \<Rightarrow>
             Inr (c\<lparr>svg := node, props := (props c)\<lparr>eventDispatcher := disp\<rparr>\<rparr>, ds'))"

subsection \<open>render\<close>

record NoDataProps =
  nodata_width :: number
  nodata_height :: number
  nodata_noDataMessage :: string

record 'c LegendProps =
  legend_data :: "ChartData list"
  legend_width :: number
  legend_margin :: Margin
  legend_color :: "'c color"
  legend_showLegend :: bool
  legend_eventDispatcher :: dispatcher

record ('x, 'y) AxisProps =
  axis_data :: "ChartData list"
  axis_width :: number
  axis_height :: number
  axis_margin :: Margin
  axis_x :: 'x
  axis_y :: 'y
  axis_axisConfig :: AxisConfig
  axis_showGridX :: bool
  axis_showGridY :: bool
  axis_tickFormat :: string

record ('x, 'y, 'c) BarsProps =
  bars_data :: "ChartData list"
  bars_height :: number
  bars_x :: 'x
  bars_y :: 'y
  bars_color :: "'c color"
  bars_barSpacing :: number
  bars_animate :: bool
  bars_duration :: number
  bars_delay :: number
  bars_eventDispatcher :: dispatcher

text \<open>
  The values that can stand as a child of the \<open>svg\<close> in the returned tree: what
  \<open>!data.length && <NoData/>\<close> and \<open>data.length && <g className="wrapper">\<close> evaluate
  to. The wrapper always holds a Legend, an Axis and a Bars element, in this order.
\<close>

datatype ('x, 'y, 'c) jsx =
    JSXFalse
  | JSXNumber nat
  | NoData NoDataProps
  | Wrapper "'c LegendProps" "('x, 'y) AxisProps" "('x, 'y, 'c) BarsProps"

text \<open>The first statement of \<open>render\<close>: the geometry \<open>{ w, h, m, x, y }\<close>.\<close>

definition render_chartValues :: "('x, 'y, 'c) utils \<Rightarrow> 'c BarChart \<Rightarrow> ('x, 'y) ChartValues" where
  "render_chartValues U c =
     calculateChartValues U
       (filter (\<lambda>d. \<not> disabled d) (state_data (state c)))
       (state_width (state c)) (height (props c)) (margin (props c))
       (xScaleType (props c)) (yScaleType (props c))"

text \<open>
  \<open>render\<close> returns the instance as \<open>updateChart\<close> left it (the array in
  \<open>this.state.data\<close> is the one \<open>updateChart\<close> mutated, and the same one the JSX reads)
  and the children of \<open><div className="bar-chart"><svg>\<close>.
\<close>

definition render ::
  "('x, 'y, 'c) utils \<Rightarrow> 'c BarChart \<Rightarrow> error + ('c BarChart \<times> ('x, 'y, 'c) jsx list)" where
  "render U c =
     (let v = render_chartValues U c in
      case updateChart c (state_data (state c)) (cv_w v) (cv_h v) (cv_m v) of
        Inl e \<Rightarrow> Inl e
      | Inr (c1, ds) \<Rightarrow>
          (let c2 = c1\<lparr>state := (state c1)\<lparr>state_data := ds\<rparr>\<rparr>;
               wd = state_width (state c);
               col = state_color (state c);
               p = props c2
           in Inr (c2,
                [ if length ds = 0
                  then NoData \<lparr> nodata_width = wd, nodata_height = height p,
                                nodata_noDataMessage = noDataMessage p \<rparr>
                  else JSXFalse,
                  if length ds = 0
                  then JSXNumber (length ds)
                  else Wrapper
                    \<lparr> legend_data = ds, legend_width = wd, legend_margin = cv_m v,
                      legend_color = col, legend_showLegend = showLegend p,
                      legend_eventDispatcher = eventDispatcher p \<rparr>
                    \<lparr> axis_data = ds, axis_width = wd, axis_height = cv_h v,
                      axis_margin = cv_m v, axis_x = cv_x v, axis_y = cv_y v,
                      axis_axisConfig = axisConfig p, axis_showGridX = showGridX p,
                      axis_showGridY = showGridY p, axis_tickFormat = tickFormat p \<rparr>
                    \<lparr> bars_data = ds, bars_height = cv_h v, bars_x = cv_x v,
                      bars_y = cv_y v, bars_color = col, bars_barSpacing = barSpacing p,
                      bars_animate = animate p, bars_duration = duration p,
                      bars_delay = delay p, bars_eventDispatcher = eventDispatcher p \<rparr> ])))"

text \<open>
  What React puts into the DOM for a list of children: \<open>false\<close> renders nothing, a
  number renders as a text node, an element renders as itself.
\<close>

fun renders_nothing :: "('x, 'y, 'c) jsx \<Rightarrow> bool" where
  "renders_nothing JSXFalse = True"
| "renders_nothing _ = False"

definition rendered_children :: "('x, 'y, 'c) jsx list \<Rightarrow> ('x, 'y, 'c) jsx list" where
  "rendered_children js = filter (\<lambda>j. \<not> renders_nothing j) js"

fun is_Wrapper :: "('x, 'y, 'c) jsx \<Rightarrow> bool" where
  "is_Wrapper (Wrapper _ _ _) = True"
| "is_Wrapper _ = False"

subsection \<open>Running a callback\<close>

text \<open>
  What a registered callback does to the instance when the dispatcher calls it with
  payload \<open>d\<close>. A host's callback acts on the host, outside this instance.
\<close>

fun run_handler :: "handler \<Rightarrow> ChartData list \<Rightarrow> 'c BarChart \<Rightarrow> 'c BarChart" where
  "run_handler SetStateData d c = c\<lparr>state := (state c)\<lparr>state_data := d\<rparr>\<rparr>"
| "run_handler Noop d c = c"
| "run_handler (HostHandler _) d c = c"

text \<open>\<open>dispatcher.call(type, ...)\<close> runs the callbacks of the type in registration order.\<close>

definition dispatcher_call ::
  "dispatcher \<Rightarrow> string \<Rightarrow> ChartData list \<Rightarrow> 'c BarChart \<Rightarrow> error + 'c BarChart" where
  "dispatcher_call disp t d c =
     (case disp t of
        None \<Rightarrow> Inl (UnknownType t)
      | Some cbs \<Rightarrow> Inr (foldl (\<lambda>c' cb. run_handler (snd cb) d c') c cbs))"

subsection \<open>The lifecycle, as React drives it\<close>

text \<open>
  After a render React sets the two refs. The container measures \<open>ow\<close>; a fresh
  \<open>svg\<close> has no attributes, and it holds one \<open>.wrapper\<close> group exactly when the tree
  has one.
\<close>

definition sync_wrappers ::
  "('x, 'y, 'c) jsx list \<Rightarrow> (number \<times> number) option list \<Rightarrow> (number \<times> number) option list" where
  "sync_wrappers tree old =
     (if list_ex is_Wrapper tree then (case old of [] \<Rightarrow> [None] | t # _ \<Rightarrow> [t]) else [])"

definition commit :: "'c BarChart \<Rightarrow> ('x, 'y, 'c) jsx list \<Rightarrow> number \<Rightarrow> 'c BarChart" where
  "commit c tree ow =
     c\<lparr>barChart := Some \<lparr> offsetWidth = ow \<rparr>,
       svg := Some (case svg c of
                      None \<Rightarrow> \<lparr> attr_width = None, attr_height = None,
                                wrapper_transform = sync_wrappers tree [] \<rparr>
                    | Some n \<Rightarrow> n\<lparr>wrapper_transform :=
                                   sync_wrappers tree (wrapper_transform n)\<rparr>)\<rparr>"

definition rerender :: "('x, 'y, 'c) utils \<Rightarrow> 'c BarChart \<Rightarrow> number \<Rightarrow> error + 'c BarChart" where
  "rerender U c ow =
     (case render U c of Inl e \<Rightarrow> Inl e | Inr (c', tree) \<Rightarrow> Inr (commit c' tree ow))"

text \<open>
  Mounting: the constructor, \<open>componentWillMount\<close>, the first render, the refs, then
  \<open>componentDidMount\<close>; its \<open>setState\<close> (made when \<open>fluid\<close> is set) renders again.
  \<open>ow\<close> is the width the browser lays the container out with.
\<close>

definition mount :: "('x, 'y, 'c) utils \<Rightarrow> Props \<Rightarrow> number \<Rightarrow> error + 'c BarChart" where
  "mount U p ow =
     (case componentWillMount U (construct p) of
        Inl e \<Rightarrow> Inl e
      | Inr c1 \<Rightarrow>
     (case render U c1 of
        Inl e \<Rightarrow> Inl e
      | Inr (c2, tree) \<Rightarrow>
          (let c3 = componentDidMount (commit c2 tree ow)
           in if fluid p then rerender U c3 ow else Inr c3)))"

text \<open>
  The events of a mounted instance: the window is resized and the container now measures
  \<open>ow\<close>; the host passes new props; a child emits an event on the dispatcher.
  The class defines no method that runs on new props, so they leave the state as it is.
  A \<open>setState\<close> is followed by a render. Unmounting runs \<open>componentWillUnmount\<close> and
  clears the refs.
\<close>

datatype event =
    Resize number
  | ReceiveProps Props
  | Emit string "ChartData list"
  | Unmount

definition container_width :: "'c BarChart \<Rightarrow> number" where
  "container_width c = (case barChart c of None \<Rightarrow> 0 | Some el \<Rightarrow> offsetWidth el)"

fun step :: "('x, 'y, 'c) utils \<Rightarrow> 'c BarChart \<Rightarrow> event \<Rightarrow> error + 'c BarChart" where
  "step U c (Resize ow) =
     (let c1 = c\<lparr>barChart := map_option (\<lambda>el. el\<lparr>offsetWidth := ow\<rparr>) (barChart c)\<rparr>
      in if resize_listener c1
         then (if fluid (props c1) then rerender U (updateDimensions c1) ow
               else Inr (updateDimensions c1))
         else Inr c1)"
| "step U c (ReceiveProps p) = rerender U (c\<lparr>props := p\<rparr>) (container_width c)"
| "step U c (Emit t d) =
     (case dispatcher_call (eventDispatcher (props c)) t d c of
        Inl e \<Rightarrow> Inl e
      | Inr c1 \<Rightarrow>
          (if dispatcher_get (eventDispatcher (props c)) t [] = Some SetStateData
           then rerender U c1 (container_width c1) else Inr c1))"
| "step U c Unmount = Inr ((componentWillUnmount c)\<lparr>barChart := None, svg := None\<rparr>)"

fun run :: "('x, 'y, 'c) utils \<Rightarrow> 'c BarChart \<Rightarrow> event list \<Rightarrow> error + 'c BarChart" where
  "run U c [] = Inr c"
| "run U c (e # es) = (case step U c e of Inl err \<Rightarrow> Inl err | Inr c' \<Rightarrow> run U c' es)"

definition run_from ::
  "('x, 'y, 'c) utils \<Rightarrow> Props \<Rightarrow> number \<Rightarrow> event list \<Rightarrow> error + 'c BarChart" where
  "run_from U p ow es = (case mount U p ow of Inl e \<Rightarrow> Inl e | Inr c \<Rightarrow> run U c es)"

subsection \<open>Observations used in the statements\<close>

text \<open>The dispatcher was created with the four event types the component registers on.\<close>

definition declares :: "dispatcher \<Rightarrow> bool" where
  "declares disp =
     (disp ''legendClick'' \<noteq> None \<and> disp ''barClick'' \<noteq> None \<and>
      disp ''barMouseOver'' \<noteq> None \<and> disp ''barMouseOut'' \<noteq> None)"

text \<open>The children a render returns, and the data arrays handed to Bars elements in them.\<close>

definition render_tree ::
  "('x, 'y, 'c) utils \<Rightarrow> 'c BarChart \<Rightarrow> error + ('x, 'y, 'c) jsx list" where
  "render_tree U c = (case render U c of Inl e \<Rightarrow> Inl e | Inr r \<Rightarrow> Inr (snd r))"

fun bars_data_of :: "('x, 'y, 'c) jsx \<Rightarrow> ChartData list option" where
  "bars_data_of (Wrapper lg ax br) = Some (bars_data br)"
| "bars_data_of _ = None"

definition passed_to_Bars :: "('x, 'y, 'c) utils \<Rightarrow> 'c BarChart \<Rightarrow> ChartData list list" where
  "passed_to_Bars U c =
     (case render_tree U c of Inl e \<Rightarrow> [] | Inr tree \<Rightarrow> List.map_filter bars_data_of tree)"

text \<open>The state's color and width at the end of a run, and the container's measure.\<close>

definition color_after ::
  "('x, 'y, 'c) utils \<Rightarrow> Props \<Rightarrow> number \<Rightarrow> event list \<Rightarrow> error + 'c color" where
  "color_after U p ow es =
     (case run_from U p ow es of Inl e \<Rightarrow> Inl e | Inr c \<Rightarrow> Inr (state_color (state c)))"

definition width_after ::
  "('x, 'y, 'c) utils \<Rightarrow> Props \<Rightarrow> number \<Rightarrow> event list \<Rightarrow> error + (number \<times> number)" where
  "width_after U p ow es =
     (case run_from U p ow es of
        Inl e \<Rightarrow> Inl e
      | Inr c \<Rightarrow> Inr (container_width c, state_width (state c)))"

text \<open>The color mapping that \<open>componentWillMount\<close> would compute from given props.\<close>

definition color_of_props :: "('x, 'y, 'c) utils \<Rightarrow> Props \<Rightarrow> error + 'c color" where
  "color_of_props U p =
     (case data p of
        None \<Rightarrow> Inl TypeError
      | Some d \<Rightarrow>
          Inr (Computed (calculateColorScale U (length d) (useColorScale p) (colorScale p)
                           (colorSchemeCategory p))))"

subsection \<open>An instance of the utilities\<close>

text \<open>
  Modelled from the spec: utils/chart and utils/scales are not part of the sources at
  hand. The derived layout is the plot width and height after margin subtraction and two
  scales from domain values to pixel positions; the color scale is either a two-color
  gradient or a discrete category scheme, resolved for a data length. Scales and color
  functions are given by what determines them. This instance serves the concrete runs
  below; the theorems hold for every \<open>utils\<close>.
\<close>

record XScale =
  x_type :: string
  x_domain :: "string list"
  x_range :: "number \<times> number"

record YScale =
  y_type :: string
  y_domain :: "number \<times> number"
  y_range :: "number \<times> number"

datatype ColorFn = Gradient nat string string | Category "string list"

definition spec_calculateChartValues ::
  "ChartData list \<Rightarrow> number \<Rightarrow> number \<Rightarrow> Margin \<Rightarrow> string \<Rightarrow> string
     \<Rightarrow> (XScale, YScale) ChartValues" where
  "spec_calculateChartValues ds wd ht mg xt yt =
     (let w = wd - margin_left mg - margin_right mg;
          h = ht - margin_top mg - margin_bottom mg;
          pts = concat (map series_values ds)
      in \<lparr> cv_w = w, cv_h = h, cv_m = mg,
           cv_x = \<lparr> x_type = xt, x_domain = remdups (map point_x pts), x_range = (0, w) \<rparr>,
           cv_y = \<lparr> y_type = yt, y_domain = (0, fold max (map point_y pts) 0),
                    y_range = (h, 0) \<rparr> \<rparr>)"

definition spec_calculateColorScale :: "nat \<Rightarrow> bool \<Rightarrow> ColorScale \<Rightarrow> string list \<Rightarrow> ColorFn" where
  "spec_calculateColorScale n use cs cat =
     (if use then Gradient n (color_from cs) (color_to cs) else Category cat)"

definition spec_utils :: "(XScale, YScale, ColorFn) utils" where
  "spec_utils =
     \<lparr> calculateChartValues = spec_calculateChartValues,
       calculateColorScale = spec_calculateColorScale \<rparr>"

text \<open>Sample series and props for the concrete runs.\<close>

definition series_a :: ChartData where
  "series_a =
     \<lparr> key = ''a'',
       series_values =
         [\<lparr> point_x = ''Q1'', point_y = 3, point_series = None, point_key = None \<rparr>,
          \<lparr> point_x = ''Q2'', point_y = 5, point_series = None, point_key = None \<rparr>],
       disabled = False \<rparr>"

definition series_b :: ChartData where
  "series_b =
     \<lparr> key = ''b'',
       series_values =
         [\<lparr> point_x = ''Q3'', point_y = 9, point_series = None, point_key = None \<rparr>],
       disabled = True \<rparr>"

definition props_with :: "ChartData list \<Rightarrow> Props" where
  "props_with ds = defaultProps\<lparr>data := Some ds\<rparr>"

text \<open>
  A dispatcher on which the host has registered callbacks of its own before the
  component renders: under the bare names \<open>legendClick\<close> and \<open>barClick\<close>, and under
  the name \<open>barClick.host\<close>.
\<close>

definition host_dispatcher :: dispatcher where
  "host_dispatcher =
     (dispatch [''legendClick'', ''barClick'', ''barMouseOver'', ''barMouseOut''])
       (''legendClick'' \<mapsto> [([], HostHandler 1)],
        ''barClick'' \<mapsto> [(''host'', HostHandler 2), ([], HostHandler 3)])"

section \<open>Properties\<close>

subsection \<open>The utilities and the dispatcher\<close>

lemma disabled_mapSeries: "map disabled (mapSeries i ds) = map disabled ds"
  by (induction ds arbitrary: i) simp_all

lemma mapSeriesToData_Nil_iff: "mapSeriesToData ds = [] \<longleftrightarrow> ds = []"
  by (cases ds) (simp_all add: mapSeriesToData_def)

lemma mapSeries_idem: "mapSeries i (mapSeries i ds) = mapSeries i ds"
  by (induction ds arbitrary: i) simp_all

lemma mapSeriesToData_idem: "mapSeriesToData (mapSeriesToData ds) = mapSeriesToData ds"
  by (simp add: mapSeriesToData_def mapSeries_idem)

lemma register_handlers_ok:
  assumes "disp ''legendClick'' = Some l" "disp ''barClick'' = Some b"
    "disp ''barMouseOver'' = Some ov" "disp ''barMouseOut'' = Some ou"
  shows "register_handlers disp =
     Inr (disp(''legendClick'' \<mapsto> set_callback l [] SetStateData,
              ''barClick'' \<mapsto> set_callback b [] Noop,
              ''barMouseOver'' \<mapsto> set_callback ov [] Noop,
              ''barMouseOut'' \<mapsto> set_callback ou [] Noop))"
  using assms by (simp add: register_handlers_def dispatcher_on_def)

lemma declares_register:
  assumes "declares disp"
  shows "\<exists>l b ov ou. disp ''legendClick'' = Some l \<and> disp ''barClick'' = Some b \<and>
           disp ''barMouseOver'' = Some ov \<and> disp ''barMouseOut'' = Some ou \<and>
           register_handlers disp =
             Inr (disp(''legendClick'' \<mapsto> set_callback l [] SetStateData,
                      ''barClick'' \<mapsto> set_callback b [] Noop,
                      ''barMouseOver'' \<mapsto> set_callback ov [] Noop,
                      ''barMouseOut'' \<mapsto> set_callback ou [] Noop))"
proof -
  from assms obtain l b ov ou where
    h: "disp ''legendClick'' = Some l" "disp ''barClick'' = Some b"
       "disp ''barMouseOver'' = Some ov" "disp ''barMouseOut'' = Some ou"
    by (auto simp: declares_def)
  from register_handlers_ok [OF h] h show ?thesis by blast
qed

lemma get_set_callback: "get_callback (set_callback cbs name cb) name = Some cb"
proof -
  have "map_of (filter (\<lambda>c. fst c \<noteq> name) cbs) name = None"
    by (induction cbs) auto
  then show ?thesis
    by (simp add: get_callback_def set_callback_def map_add_def)
qed

lemma get_set_callback_other:
  "name' \<noteq> name \<Longrightarrow> get_callback (set_callback cbs name cb) name' = get_callback cbs name'"
proof -
  assume ne: "name' \<noteq> name"
  have "map_of (filter (\<lambda>c. fst c \<noteq> name) cbs) name' = map_of cbs name'"
    using ne by (induction cbs) auto
  then show ?thesis
    using ne by (simp add: get_callback_def set_callback_def map_add_def split: option.splits)
qed

lemma register_handlers_get:
  assumes "register_handlers disp = Inr disp'"
  shows "dispatcher_get disp' ''legendClick'' [] = Some SetStateData"
    and "dispatcher_get disp' ''barClick'' [] = Some Noop"
    and "dispatcher_get disp' ''barMouseOver'' [] = Some Noop"
    and "dispatcher_get disp' ''barMouseOut'' [] = Some Noop"
    and "declares disp'"
  using assms
  by (auto simp: register_handlers_def dispatcher_on_def dispatcher_get_def get_set_callback
      declares_def split: option.splits sum.splits if_splits)

lemma register_handlers_named:
  assumes "register_handlers disp = Inr disp'" and "name \<noteq> []"
  shows "dispatcher_get disp' t name = dispatcher_get disp t name"
  using assms
  by (auto simp: register_handlers_def dispatcher_on_def dispatcher_get_def
      get_set_callback_other split: option.splits sum.splits if_splits)

lemma register_handlers_legendClick_last:
  assumes "register_handlers disp = Inr disp'"
  shows "\<exists>cbs. disp' ''legendClick'' = Some (cbs @ [([], SetStateData)])"
  using assms
  by (auto simp: register_handlers_def dispatcher_on_def set_callback_def
      split: option.splits sum.splits if_splits)

subsection \<open>One render\<close>

lemma updateChart_Inr:
  assumes "register_handlers (eventDispatcher (props c)) = Inr disp"
  shows "updateChart c ds w h m =
     Inr (c\<lparr>svg := map_option
              (\<lambda>n. n\<lparr>attr_width := Some (w + margin_left m + margin_right m),
                     attr_height := Some (h + margin_top m + margin_bottom m),
                     wrapper_transform :=
                       map (\<lambda>_. Some (margin_left m, margin_top m)) (wrapper_transform n)\<rparr>)
              (svg c),
            props := (props c)\<lparr>eventDispatcher := disp\<rparr>\<rparr>, mapSeriesToData ds)"
  using assms by (simp add: updateChart_def)

lemma updateChart_Inl:
  assumes "register_handlers (eventDispatcher (props c)) = Inl e"
  shows "updateChart c ds w h m = Inl e"
  using assms by (simp add: updateChart_def)

lemma render_Inl:
  assumes "register_handlers (eventDispatcher (props c)) = Inl e"
  shows "render U c = Inl e"
  using assms by (simp add: render_def updateChart_Inl)

lemma render_Inr_dispatcher:
  assumes "render U c = Inr (c', tree)"
  shows "register_handlers (eventDispatcher (props c)) = Inr (eventDispatcher (props c'))"
proof (cases "register_handlers (eventDispatcher (props c))")
  case (Inl e)
  then show ?thesis using assms by (simp add: render_Inl)
next
  case (Inr disp)
  then show ?thesis using assms by (auto simp: render_def Let_def updateChart_Inr)
qed

lemma render_Inr_frame:
  assumes "render U c = Inr (c', tree)"
  shows "state c' = (state c)\<lparr>state_data := mapSeriesToData (state_data (state c))\<rparr>"
    and "props c' = (props c)\<lparr>eventDispatcher := eventDispatcher (props c')\<rparr>"
    and "barChart c' = barChart c"
    and "resize_listener c' = resize_listener c"
proof -
  obtain disp where d: "register_handlers (eventDispatcher (props c)) = Inr disp"
    using assms by (cases "register_handlers (eventDispatcher (props c))") (simp_all add: render_Inl)
  from assms show "state c' = (state c)\<lparr>state_data := mapSeriesToData (state_data (state c))\<rparr>"
    by (auto simp: render_def Let_def updateChart_Inr [OF d])
  from assms show "props c' = (props c)\<lparr>eventDispatcher := eventDispatcher (props c')\<rparr>"
    by (auto simp: render_def Let_def updateChart_Inr [OF d])
  from assms show "barChart c' = barChart c"
    by (auto simp: render_def Let_def updateChart_Inr [OF d])
  from assms show "resize_listener c' = resize_listener c"
    by (auto simp: render_def Let_def updateChart_Inr [OF d])
qed

lemma render_Inr_svg:
  assumes "render U c = Inr (c', tree)"
  shows "svg c' = map_option
       (\<lambda>n. n\<lparr>attr_width := Some (cv_w (render_chartValues U c)
                  + margin_left (cv_m (render_chartValues U c))
                  + margin_right (cv_m (render_chartValues U c))),
              attr_height := Some (cv_h (render_chartValues U c)
                  + margin_top (cv_m (render_chartValues U c))
                  + margin_bottom (cv_m (render_chartValues U c))),
              wrapper_transform :=
                map (\<lambda>_. Some (margin_left (cv_m (render_chartValues U c)),
                               margin_top (cv_m (render_chartValues U c))))
                  (wrapper_transform n)\<rparr>)
       (svg c)"
proof -
  obtain disp where d: "register_handlers (eventDispatcher (props c)) = Inr disp"
    using assms by (cases "register_handlers (eventDispatcher (props c))") (simp_all add: render_Inl)
  from assms show ?thesis
    by (auto simp: render_def Let_def updateChart_Inr [OF d])
qed

lemma render_Inr_tree:
  assumes "render U c = Inr (c', tree)"
  shows "tree =
    (let v = render_chartValues U c;
         ds = mapSeriesToData (state_data (state c));
         wd = state_width (state c);
         col = state_color (state c);
         p = props c'
     in [ if state_data (state c) = []
          then NoData \<lparr> nodata_width = wd, nodata_height = height p,
                        nodata_noDataMessage = noDataMessage p \<rparr>
          else JSXFalse,
          if state_data (state c) = []
          then JSXNumber 0
          else Wrapper
            \<lparr> legend_data = ds, legend_width = wd, legend_margin = cv_m v,
              legend_color = col, legend_showLegend = showLegend p,
              legend_eventDispatcher = eventDispatcher p \<rparr>
            \<lparr> axis_data = ds, axis_width = wd, axis_height = cv_h v,
              axis_margin = cv_m v, axis_x = cv_x v, axis_y = cv_y v,
              axis_axisConfig = axisConfig p, axis_showGridX = showGridX p,
              axis_showGridY = showGridY p, axis_tickFormat = tickFormat p \<rparr>
            \<lparr> bars_data = ds, bars_height = cv_h v, bars_x = cv_x v,
              bars_y = cv_y v, bars_color = col, bars_barSpacing = barSpacing p,
              bars_animate = animate p, bars_duration = duration p,
              bars_delay = delay p, bars_eventDispatcher = eventDispatcher p \<rparr> ])"
proof -
  obtain disp where d: "register_handlers (eventDispatcher (props c)) = Inr disp"
    using assms by (cases "register_handlers (eventDispatcher (props c))") (simp_all add: render_Inl)
  from assms show ?thesis
    by (auto simp: render_def Let_def updateChart_Inr [OF d] mapSeriesToData_Nil_iff)
qed

lemma render_Inr_wrapper:
  assumes "render U c = Inr (c', tree)" and "Wrapper lg ax br \<in> set tree"
  shows "legend_margin lg = cv_m (render_chartValues U c) \<and>
         axis_height ax = cv_h (render_chartValues U c) \<and>
         axis_margin ax = cv_m (render_chartValues U c) \<and>
         axis_x ax = cv_x (render_chartValues U c) \<and>
         axis_y ax = cv_y (render_chartValues U c) \<and>
         bars_height br = cv_h (render_chartValues U c) \<and>
         bars_x br = cv_x (render_chartValues U c) \<and>
         bars_y br = cv_y (render_chartValues U c)"
  using assms(2) unfolding render_Inr_tree [OF assms(1)]
  by (auto simp: Let_def split: if_splits)

lemma render_total:
  assumes "declares (eventDispatcher (props c))"
  shows "\<exists>c' tree. render U c = Inr (c', tree)"
proof -
  from declares_register [OF assms] obtain disp where
    "register_handlers (eventDispatcher (props c)) = Inr disp" by blast
  then show ?thesis by (simp add: render_def Let_def updateChart_Inr)
qed

lemma render_tree_Inr:
  assumes "declares (eventDispatcher (props c))"
  shows "\<exists>c' tree. render U c = Inr (c', tree) \<and> render_tree U c = Inr tree"
  using render_total [OF assms, of U] by (auto simp: render_tree_def)

lemma render_nonempty_children:
  assumes "declares (eventDispatcher (props c))" and "state_data (state c) \<noteq> []"
  shows "\<exists>lg ax br. render_tree U c = Inr [JSXFalse, Wrapper lg ax br] \<and>
           map_sum id rendered_children (render_tree U c) = Inr [Wrapper lg ax br]"
proof -
  from render_total [OF assms(1)] obtain c' tree where r: "render U c = Inr (c', tree)"
    by blast
  from render_Inr_tree [OF r] assms(2) obtain lg ax br where
    "tree = [JSXFalse, Wrapper lg ax br]"
    by (simp add: Let_def)
  then show ?thesis using r by (simp add: render_tree_def rendered_children_def)
qed

lemma render_keeps_named_callbacks:
  assumes "render U c = Inr (c', tree)" and "name \<noteq> []"
  shows "dispatcher_get (eventDispatcher (props c')) t name =
         dispatcher_get (eventDispatcher (props c)) t name"
  using register_handlers_named [OF render_Inr_dispatcher [OF assms(1)] assms(2)] .

subsection \<open>Callbacks and the lifecycle\<close>

lemma run_handler_frame:
  "state_color (state (run_handler cb d c)) = state_color (state c)"
  "state_width (state (run_handler cb d c)) = state_width (state c)"
  "props (run_handler cb d c) = props c"
  "barChart (run_handler cb d c) = barChart c"
  "resize_listener (run_handler cb d c) = resize_listener c"
  by (cases cb; simp)+

lemma foldl_run_handler_frame:
  "state_color (state (foldl (\<lambda>a cb. run_handler (snd cb) d a) c cbs)) = state_color (state c)"
  "state_width (state (foldl (\<lambda>a cb. run_handler (snd cb) d a) c cbs)) = state_width (state c)"
  "props (foldl (\<lambda>a cb. run_handler (snd cb) d a) c cbs) = props c"
  by (induction cbs arbitrary: c; simp add: run_handler_frame)+

lemma foldl_run_handler_SetStateData:
  "state_data (state (foldl (\<lambda>a cb. run_handler (snd cb) d a) c (cbs @ [(name, SetStateData)]))) = d"
  by simp

lemma dispatcher_call_frame:
  assumes "dispatcher_call disp t d c = Inr c'"
  shows "state_color (state c') = state_color (state c)"
    and "state_width (state c') = state_width (state c)"
    and "props c' = props c"
  using assms
  by (auto simp: dispatcher_call_def foldl_run_handler_frame split: option.splits)

lemma commit_frame:
  "state (commit c tree ow) = state c"
  "props (commit c tree ow) = props c"
  "resize_listener (commit c tree ow) = resize_listener c"
  "barChart (commit c tree ow) = Some \<lparr> offsetWidth = ow \<rparr>"
  by (simp_all add: commit_def)

lemma rerender_Inr:
  assumes "rerender U c ow = Inr c'"
  shows "state c' = (state c)\<lparr>state_data := mapSeriesToData (state_data (state c))\<rparr>"
    and "props c' = (props c)\<lparr>eventDispatcher := eventDispatcher (props c')\<rparr>"
    and "resize_listener c' = resize_listener c"
    and "barChart c' = Some \<lparr> offsetWidth = ow \<rparr>"
    and "declares (eventDispatcher (props c'))"
proof -
  from assms obtain c1 tree where r: "render U c = Inr (c1, tree)" and c': "c' = commit c1 tree ow"
    by (auto simp: rerender_def split: sum.splits)
  show "state c' = (state c)\<lparr>state_data := mapSeriesToData (state_data (state c))\<rparr>"
    by (simp add: c' commit_frame render_Inr_frame(1) [OF r])
  show "props c' = (props c)\<lparr>eventDispatcher := eventDispatcher (props c')\<rparr>"
    using render_Inr_frame(2) [OF r] by (simp add: c' commit_frame)
  show "resize_listener c' = resize_listener c"
    by (simp add: c' commit_frame render_Inr_frame(4) [OF r])
  show "barChart c' = Some \<lparr> offsetWidth = ow \<rparr>"
    by (simp add: c' commit_frame)
  show "declares (eventDispatcher (props c'))"
    using register_handlers_get(5) [OF render_Inr_dispatcher [OF r]] by (simp add: c' commit_frame)
qed

lemma rerender_total:
  assumes "declares (eventDispatcher (props c))"
  shows "\<exists>c'. rerender U c ow = Inr c'"
  using render_total [OF assms, of U] by (auto simp: rerender_def)

lemma updateDimensions_frame:
  "props (updateDimensions c) = props c"
  "barChart (updateDimensions c) = barChart c"
  "resize_listener (updateDimensions c) = resize_listener c"
  "state_color (state (updateDimensions c)) = state_color (state c)"
  "state_data (state (updateDimensions c)) = state_data (state c)"
  by (simp_all add: updateDimensions_def)

lemma step_state_color:
  assumes "step U c e = Inr c'"
  shows "state_color (state c') = state_color (state c)"
proof (cases e)
  case (Resize ow)
  then show ?thesis using assms
    by (auto simp: Let_def updateDimensions_frame dest!: rerender_Inr(1) split: if_splits)
next
  case (ReceiveProps p)
  then show ?thesis using assms by (auto dest!: rerender_Inr(1))
next
  case (Emit t d)
  then show ?thesis using assms
    by (auto simp: dispatcher_call_frame dest!: rerender_Inr(1) split: sum.splits if_splits)
next
  case Unmount
  then show ?thesis using assms by (auto simp: componentWillUnmount_def)
qed

lemma run_state_color:
  "run U c es = Inr c' \<Longrightarrow> state_color (state c') = state_color (state c)"
proof (induction es arbitrary: c)
  case Nil
  then show ?case by simp
next
  case (Cons e es)
  then obtain c1 where s: "step U c e = Inr c1" and r: "run U c1 es = Inr c'"
    by (auto split: sum.splits)
  from Cons.IH [OF r] step_state_color [OF s] show ?case by simp
qed

lemma mount_state_color:
  assumes "mount U p ow = Inr c"
  shows "color_of_props U p = Inr (state_color (state c))"
proof -
  from assms obtain d where d: "data p = Some d"
    by (cases "data p") (simp_all add: mount_def componentWillMount_def construct_def)
  let ?c1 = "(construct p)\<lparr>state := (state (construct p))\<lparr>state_color :=
                 Computed (calculateColorScale U (length d) (useColorScale p)
                             (colorScale p) (colorSchemeCategory p))\<rparr>\<rparr>"
  have w: "componentWillMount U (construct p) = Inr ?c1"
    using d by (simp add: componentWillMount_def construct_def)
  from assms w obtain c2 tree where r: "render U ?c1 = Inr (c2, tree)"
    by (auto simp: mount_def split: sum.splits)
  have c2: "state_color (state c2) = state_color (state ?c1)"
    by (simp add: render_Inr_frame(1) [OF r])
  let ?c3 = "componentDidMount (commit c2 tree ow)"
  have c3: "state_color (state ?c3) = state_color (state c2)"
    by (simp add: componentDidMount_def updateDimensions_def commit_def)
  from assms w r have "(if fluid p then rerender U ?c3 ow else Inr ?c3) = Inr c"
    by (simp add: mount_def Let_def)
  then have "state_color (state c) = state_color (state ?c3)"
    by (auto dest!: rerender_Inr(1) split: if_splits)
  with c2 c3 d show ?thesis by (simp add: color_of_props_def)
qed

lemma mount_state_data:
  assumes "mount U p ow = Inr c" and "data p = Some ds"
  shows "state_data (state c) = mapSeriesToData ds"
proof -
  let ?c1 = "(construct p)\<lparr>state := (state (construct p))\<lparr>state_color :=
                 Computed (calculateColorScale U (length ds) (useColorScale p)
                             (colorScale p) (colorSchemeCategory p))\<rparr>\<rparr>"
  have w: "componentWillMount U (construct p) = Inr ?c1"
    using assms(2) by (simp add: componentWillMount_def construct_def)
  from assms(1) w obtain c2 tree where r: "render U ?c1 = Inr (c2, tree)"
    by (auto simp: mount_def split: sum.splits)
  have c2: "state_data (state c2) = mapSeriesToData ds"
    using assms(2) by (simp add: render_Inr_frame(1) [OF r] construct_def initialState_def)
  let ?c3 = "componentDidMount (commit c2 tree ow)"
  have c3: "state_data (state ?c3) = mapSeriesToData ds"
    using c2 by (simp add: componentDidMount_def updateDimensions_def commit_def)
  from assms(1) w r have "(if fluid p then rerender U ?c3 ow else Inr ?c3) = Inr c"
    by (simp add: mount_def Let_def)
  then show ?thesis
    using c3 by (auto simp: mapSeriesToData_idem dest!: rerender_Inr(1) split: if_splits)
qed

lemma mount_resized:
  assumes "data p = Some ds" and "declares (eventDispatcher p)"
  shows "\<exists>c. mount U p ow = Inr c \<and> resize_listener c \<and>
           barChart c = Some \<lparr> offsetWidth = ow \<rparr> \<and>
           declares (eventDispatcher (props c)) \<and>
           fluid (props c) = fluid p \<and> width (props c) = width p \<and>
           state_width (state c) =
             (if fluid p then (if ow \<noteq> 0 then ow else width p) else width p)"
proof -
  let ?c1 = "(construct p)\<lparr>state := (state (construct p))\<lparr>state_color :=
                 Computed (calculateColorScale U (length ds) (useColorScale p)
                             (colorScale p) (colorSchemeCategory p))\<rparr>\<rparr>"
  have w: "componentWillMount U (construct p) = Inr ?c1"
    using assms(1) by (simp add: componentWillMount_def construct_def)
  have "declares (eventDispatcher (props ?c1))"
    using assms(2) by (simp add: construct_def)
  from render_total [OF this] obtain c2 tree where r: "render U ?c1 = Inr (c2, tree)"
    by blast
  let ?c3 = "componentDidMount (commit c2 tree ow)"
  have p2: "props c2 = p\<lparr>eventDispatcher := eventDispatcher (props c2)\<rparr>"
    using render_Inr_frame(2) [OF r] by (simp add: construct_def)
  have f2: "fluid (props c2) = fluid p" "width (props c2) = width p"
    by (subst p2, simp)+
  have d2: "declares (eventDispatcher (props c2))"
    using register_handlers_get(5) [OF render_Inr_dispatcher [OF r]] .
  have s2: "state_width (state c2) = (if fluid p then 0 else width p)"
    by (simp add: render_Inr_frame(1) [OF r] construct_def initialState_def)
  have l2: "resize_listener c2 = False"
    by (simp add: render_Inr_frame(4) [OF r] construct_def)
  have c3: "resize_listener ?c3" "barChart ?c3 = Some \<lparr> offsetWidth = ow \<rparr>"
    "props ?c3 = props c2"
    "state_width (state ?c3) =
       (if fluid p then (if ow \<noteq> 0 then ow else width p) else width p)"
    using f2 s2 by (simp_all add: componentDidMount_def updateDimensions_def commit_def)
  have m: "mount U p ow = (if fluid p then rerender U ?c3 ow else Inr ?c3)"
    using w r by (simp add: mount_def Let_def)
  show ?thesis
  proof (cases "fluid p")
    case False
    with m c3 d2 f2 show ?thesis by simp
  next
    case True
    have "declares (eventDispatcher (props ?c3))" using d2 c3(3) by simp
    from rerender_total [OF this] obtain c where rr: "rerender U ?c3 ow = Inr c" by blast
    have pc: "props c = (props ?c3)\<lparr>eventDispatcher := eventDispatcher (props c)\<rparr>"
      using rerender_Inr(2) [OF rr] .
    have fc: "fluid (props c) = fluid p" "width (props c) = width p"
      using f2 c3(3) by (subst pc, simp)+
    have sc: "state_width (state c) = state_width (state ?c3)"
      by (simp add: rerender_Inr(1) [OF rr])
    from True m rr rerender_Inr(3-5) [OF rr] c3 fc sc show ?thesis by simp
  qed
qed

lemma mount_empty_data:
  assumes "declares (eventDispatcher p)"
  shows "\<exists>c. mount U (p\<lparr>data := Some []\<rparr>) ow = Inr c \<and> state_data (state c) = []"
proof -
  have "declares (eventDispatcher (p\<lparr>data := Some []\<rparr>))" using assms by simp
  from mount_resized [OF _ this, of "[]" U ow] obtain c where
    m: "mount U (p\<lparr>data := Some []\<rparr>) ow = Inr c" by auto
  have "state_data (state c) = []"
    using mount_state_data [OF m, of "[]"] by (simp add: mapSeriesToData_def)
  with m show ?thesis by blast
qed

lemma step_Resize_resized:
  assumes "resize_listener c" and "barChart c = Some el"
    and "declares (eventDispatcher (props c))"
  shows "\<exists>c'. step U c (Resize ow) = Inr c' \<and> resize_listener c' \<and>
           barChart c' = Some \<lparr> offsetWidth = ow \<rparr> \<and>
           declares (eventDispatcher (props c')) \<and>
           fluid (props c') = fluid (props c) \<and> width (props c') = width (props c) \<and>
           state_width (state c') =
             (if fluid (props c) then (if ow \<noteq> 0 then ow else width (props c))
              else state_width (state c))"
proof (cases "fluid (props c)")
  case False
  then show ?thesis using assms
    by (simp add: Let_def updateDimensions_def)
next
  case True
  let ?c1 = "c\<lparr>barChart := map_option (\<lambda>el. el\<lparr>offsetWidth := ow\<rparr>) (barChart c)\<rparr>"
  let ?c2 = "updateDimensions ?c1"
  have s: "step U c (Resize ow) = rerender U ?c2 ow"
    using True assms(1) by (simp add: Let_def)
  have "declares (eventDispatcher (props ?c2))"
    using assms(3) by (simp add: updateDimensions_frame)
  from rerender_total [OF this] obtain c' where rr: "rerender U ?c2 ow = Inr c'" by blast
  have pc: "props c' = (props c)\<lparr>eventDispatcher := eventDispatcher (props c')\<rparr>"
    using rerender_Inr(2) [OF rr] by (simp add: updateDimensions_frame)
  have fc: "fluid (props c') = fluid (props c)" "width (props c') = width (props c)"
    by (subst pc, simp)+
  have sc: "state_width (state c') = (if ow \<noteq> 0 then ow else width (props c))"
    using True assms(2) by (simp add: rerender_Inr(1) [OF rr] updateDimensions_def)
  from s rr rerender_Inr(3-5) [OF rr] fc sc True assms(1) show ?thesis
    by (simp add: updateDimensions_frame)
qed

lemma run_Resizes:
  assumes "resize_listener c" and "barChart c = Some el"
    and "declares (eventDispatcher (props c))"
  shows "\<exists>c'. run U c (map Resize ows) = Inr c' \<and>
           fluid (props c') = fluid (props c) \<and> width (props c') = width (props c) \<and>
           container_width c' = (if ows = [] then container_width c else last ows) \<and>
           state_width (state c') =
             (if ows = [] \<or> \<not> fluid (props c) then state_width (state c)
              else if last ows \<noteq> 0 then last ows else width (props c))"
  using assms
proof (induction ows arbitrary: c el)
  case Nil
  then show ?case by simp
next
  case (Cons ow ows)
  from step_Resize_resized [OF Cons.prems, of U ow] obtain c1 where
    s: "step U c (Resize ow) = Inr c1" and l: "resize_listener c1"
    and b: "barChart c1 = Some \<lparr> offsetWidth = ow \<rparr>"
    and d: "declares (eventDispatcher (props c1))"
    and f: "fluid (props c1) = fluid (props c)" "width (props c1) = width (props c)"
    and w: "state_width (state c1) =
             (if fluid (props c) then (if ow \<noteq> 0 then ow else width (props c))
              else state_width (state c))"
    by blast
  from Cons.IH [OF l b d] obtain c' where
    r: "run U c1 (map Resize ows) = Inr c'"
    and f': "fluid (props c') = fluid (props c1)" "width (props c') = width (props c1)"
    and cw: "container_width c' = (if ows = [] then container_width c1 else last ows)"
    and w': "state_width (state c') =
             (if ows = [] \<or> \<not> fluid (props c1) then state_width (state c1)
              else if last ows \<noteq> 0 then last ows else width (props c1))"
    by blast
  have "run U c (map Resize (ow # ows)) = Inr c'" using s r by simp
  moreover have "container_width c' = last (ow # ows)"
    using cw b by (simp add: container_width_def)
  moreover have "state_width (state c') =
      (if \<not> fluid (props c) then state_width (state c)
       else if last (ow # ows) \<noteq> 0 then last (ow # ows) else width (props c))"
    using w w' f by (simp split: if_splits)
  ultimately show ?case using f f' by simp
qed

lemma color_after_Inr_run:
  "color_after U p ow es = Inr col \<Longrightarrow> \<exists>c. run_from U p ow es = Inr c"
  by (auto simp: color_after_def split: sum.splits)

subsection \<open>The sample inputs\<close>

lemma sample_declares:
  "declares (eventDispatcher (props (construct (props_with ds))))"
  by (simp add: construct_def props_with_def defaultProps_def declares_def dispatch_def)

lemma sample_state_data: "state_data (state (construct (props_with ds))) = ds"
  by (simp add: construct_def props_with_def defaultProps_def initialState_def)

section \<open>The claims\<close>

subsection \<open>The tree for an empty data array\<close>

text \<open>
  C1. With an empty data array in the state, \<open>render\<close> returns two children for the
  \<open>svg\<close>: the no-data placeholder with the state's width and the configured height and
  message, and the number 0, the value of \<open>data.length && ...\<close>. React renders a number
  as a text node, so the 0 stays among the rendered children beside the placeholder.
  No legend, axis or bars are rendered; for a non-empty array only the wrapper with
  legend, axis and bars is (\<open>render_nonempty_children\<close>).
\<close>

theorem render_empty_data_children:
  assumes "declares (eventDispatcher (props c))" and "state_data (state c) = []"
  shows "render_tree U c =
           Inr [NoData \<lparr> nodata_width = state_width (state c), nodata_height = height (props c),
                         nodata_noDataMessage = noDataMessage (props c) \<rparr>,
                JSXNumber 0] \<and>
         map_sum id rendered_children (render_tree U c) =
           Inr [NoData \<lparr> nodata_width = state_width (state c), nodata_height = height (props c),
                         nodata_noDataMessage = noDataMessage (props c) \<rparr>,
                JSXNumber 0]"
proof -
  from render_total [OF assms(1)] obtain c' tree where r: "render U c = Inr (c', tree)"
    by blast
  have p: "height (props c') = height (props c)" "noDataMessage (props c') = noDataMessage (props c)"
    by (subst render_Inr_frame(2) [OF r], simp)+
  have "tree = [NoData \<lparr> nodata_width = state_width (state c), nodata_height = height (props c),
                         nodata_noDataMessage = noDataMessage (props c) \<rparr>, JSXNumber 0]"
    using render_Inr_tree [OF r] assms(2) p by (simp add: Let_def)
  then show ?thesis using r by (simp add: render_tree_def rendered_children_def)
qed

theorem render_empty_data_children_witness:
  "declares (eventDispatcher (props (construct (props_with []) :: ColorFn BarChart))) \<and>
   state_data (state (construct (props_with []) :: ColorFn BarChart)) = [] \<and>
   map_sum id rendered_children (render_tree spec_utils (construct (props_with []))) =
     Inr [NoData \<lparr> nodata_width = 0, nodata_height = 200,
                   nodata_noDataMessage = ''No Data Available.'' \<rparr>,
          JSXNumber 0]"
proof -
  let ?c = "construct (props_with []) :: ColorFn BarChart"
  have h1: "declares (eventDispatcher (props ?c))"
    by (simp add: construct_def props_with_def defaultProps_def declares_def dispatch_def)
  have h2: "state_data (state ?c) = []"
    by (simp add: construct_def props_with_def defaultProps_def initialState_def)
  show ?thesis
    using h1 h2 render_empty_data_children [OF h1 h2, of spec_utils]
    by (simp add: construct_def props_with_def defaultProps_def initialState_def
        rendered_children_def)
qed

subsection \<open>Geometry from the enabled series\<close>

text \<open>
  C2. For every data array and configuration, the geometry \<open>{ w, h, m, x, y }\<close> computed
  during render is \<open>calculateChartValues\<close> of the state's data with the disabled series
  filtered out, at the state's width and the configured height, margin and scale types.
  It is what sizes the \<open>svg\<close> and what the children receive (margin, plot height, x
  and y scale); and a render of the same instance without a disabled series of its data
  computes the same geometry.
\<close>

theorem geometry_from_enabled_series:
  assumes "declares (eventDispatcher (props c))"
  shows "let g = calculateChartValues U
                   (filter (\<lambda>d. \<not> disabled d) (state_data (state c)))
                   (state_width (state c)) (height (props c)) (margin (props c))
                   (xScaleType (props c)) (yScaleType (props c))
         in render_chartValues U c = g \<and>
            (\<exists>c' tree.
               render U c = Inr (c', tree) \<and>
               svg c' = map_option
                 (\<lambda>n. n\<lparr>attr_width := Some (cv_w g + margin_left (cv_m g) + margin_right (cv_m g)),
                        attr_height := Some (cv_h g + margin_top (cv_m g) + margin_bottom (cv_m g)),
                        wrapper_transform :=
                          map (\<lambda>_. Some (margin_left (cv_m g), margin_top (cv_m g)))
                            (wrapper_transform n)\<rparr>)
                 (svg c) \<and>
               (\<forall>lg ax br. Wrapper lg ax br \<in> set tree \<longrightarrow>
                  legend_margin lg = cv_m g \<and>
                  axis_height ax = cv_h g \<and> axis_margin ax = cv_m g \<and>
                  axis_x ax = cv_x g \<and> axis_y ax = cv_y g \<and>
                  bars_height br = cv_h g \<and> bars_x br = cv_x g \<and> bars_y br = cv_y g)) \<and>
            (\<forall>xs s ys. state_data (state c) = xs @ s # ys \<and> disabled s \<longrightarrow>
               render_chartValues U (c\<lparr>state := (state c)\<lparr>state_data := xs @ ys\<rparr>\<rparr>) = g)"
proof -
  let ?g = "render_chartValues U c"
  from render_total [OF assms] obtain c' tree where r: "render U c = Inr (c', tree)"
    by blast
  have w: "\<forall>lg ax br. Wrapper lg ax br \<in> set tree \<longrightarrow>
             legend_margin lg = cv_m ?g \<and>
             axis_height ax = cv_h ?g \<and> axis_margin ax = cv_m ?g \<and>
             axis_x ax = cv_x ?g \<and> axis_y ax = cv_y ?g \<and>
             bars_height br = cv_h ?g \<and> bars_x br = cv_x ?g \<and> bars_y br = cv_y ?g"
    using render_Inr_wrapper [OF r] by blast
  have d: "\<forall>xs s ys. state_data (state c) = xs @ s # ys \<and> disabled s \<longrightarrow>
             render_chartValues U (c\<lparr>state := (state c)\<lparr>state_data := xs @ ys\<rparr>\<rparr>) = ?g"
    by (simp add: render_chartValues_def)
  have "?g = ?g \<and>
        (\<exists>c' tree. render U c = Inr (c', tree) \<and>
           svg c' = map_option
             (\<lambda>n. n\<lparr>attr_width := Some (cv_w ?g + margin_left (cv_m ?g) + margin_right (cv_m ?g)),
                    attr_height := Some (cv_h ?g + margin_top (cv_m ?g) + margin_bottom (cv_m ?g)),
                    wrapper_transform :=
                      map (\<lambda>_. Some (margin_left (cv_m ?g), margin_top (cv_m ?g)))
                        (wrapper_transform n)\<rparr>)
             (svg c) \<and>
           (\<forall>lg ax br. Wrapper lg ax br \<in> set tree \<longrightarrow>
              legend_margin lg = cv_m ?g \<and>
              axis_height ax = cv_h ?g \<and> axis_margin ax = cv_m ?g \<and>
              axis_x ax = cv_x ?g \<and> axis_y ax = cv_y ?g \<and>
              bars_height br = cv_h ?g \<and> bars_x br = cv_x ?g \<and> bars_y br = cv_y ?g)) \<and>
        (\<forall>xs s ys. state_data (state c) = xs @ s # ys \<and> disabled s \<longrightarrow>
           render_chartValues U (c\<lparr>state := (state c)\<lparr>state_data := xs @ ys\<rparr>\<rparr>) = ?g)"
    using r render_Inr_svg [OF r] w d by blast
  then show ?thesis
    unfolding Let_def render_chartValues_def [of U c, symmetric] .
qed

theorem geometry_from_enabled_series_witness:
  "declares (eventDispatcher (props (construct (props_with [series_a, series_b]) :: ColorFn BarChart))) \<and>
   state_data (state (construct (props_with [series_a, series_b]) :: ColorFn BarChart)) =
     [series_a] @ series_b # [] \<and>
   disabled series_b \<and>
   render_chartValues spec_utils (construct (props_with [series_a, series_b]) :: ColorFn BarChart) =
     spec_calculateChartValues [series_a] 0 200
       \<lparr> margin_top = 20, margin_left = 40, margin_bottom = 30, margin_right = 10 \<rparr>
       ''band'' ''linear'' \<and>
   render_chartValues spec_utils
       ((construct (props_with [series_a, series_b]) :: ColorFn BarChart)
          \<lparr>state := (state (construct (props_with [series_a, series_b])))
                      \<lparr>state_data := [series_a] @ []\<rparr>\<rparr>) =
     spec_calculateChartValues [series_a] 0 200
       \<lparr> margin_top = 20, margin_left = 40, margin_bottom = 30, margin_right = 10 \<rparr>
       ''band'' ''linear''"
proof -
  let ?c = "construct (props_with [series_a, series_b]) :: ColorFn BarChart"
  let ?g = "calculateChartValues spec_utils
            (filter (\<lambda>d. \<not> disabled d) (state_data (state ?c)))
            (state_width (state ?c)) (height (props ?c)) (margin (props ?c))
            (xScaleType (props ?c)) (yScaleType (props ?c))"
  have h1: "declares (eventDispatcher (props ?c))" by (rule sample_declares)
  have h2: "state_data (state ?c) = [series_a] @ series_b # []"
    by (simp add: sample_state_data)
  have d: "disabled series_b" "\<not> disabled series_a"
    by (simp_all add: series_a_def series_b_def)
  note t = geometry_from_enabled_series [OF h1, of spec_utils, unfolded Let_def]
  from t have a: "render_chartValues spec_utils ?c = ?g" by (rule conjunct1)
  from t h2 d(1) have b:
    "render_chartValues spec_utils (?c\<lparr>state := (state ?c)\<lparr>state_data := [series_a] @ []\<rparr>\<rparr>) = ?g"
    by blast
  have g: "?g = spec_calculateChartValues [series_a] 0 200
       \<lparr> margin_top = 20, margin_left = 40, margin_bottom = 30, margin_right = 10 \<rparr>
       ''band'' ''linear''"
    using d by (simp add: sample_state_data spec_utils_def construct_def props_with_def
        defaultProps_def initialState_def)
  from a b h1 h2 d(1) show ?thesis unfolding g by blast
qed

subsection \<open>The data handed to Bars\<close>

text \<open>
  C3, as the code has it. The data handed to the Bars child is the array in the state,
  not a filtered copy: it has a series at every position of the state's array, each with
  the disabled flag it has there, so the disabled series are handed to the child. (For
  an empty array there is no Bars child.)
\<close>

theorem bars_receive_state_data:
  assumes "declares (eventDispatcher (props c))"
  shows "\<exists>c' tree.
           render U c = Inr (c', tree) \<and>
           passed_to_Bars U c =
             (if state_data (state c) = [] then [] else [state_data (state c')]) \<and>
           map disabled (state_data (state c')) = map disabled (state_data (state c))"
proof -
  from render_tree_Inr [OF assms] obtain c' tree where
    r: "render U c = Inr (c', tree)" and t: "render_tree U c = Inr tree" by blast
  have s: "state_data (state c') = mapSeriesToData (state_data (state c))"
    by (simp add: render_Inr_frame(1) [OF r])
  have "List.map_filter bars_data_of tree =
          (if state_data (state c) = [] then []
           else [mapSeriesToData (state_data (state c))])"
    by (subst render_Inr_tree [OF r]) (simp add: Let_def List.map_filter_def)
  then have b: "passed_to_Bars U c =
      (if state_data (state c) = [] then [] else [state_data (state c')])"
    using t s by (simp add: passed_to_Bars_def)
  have d: "map disabled (state_data (state c')) = map disabled (state_data (state c))"
    by (simp add: s mapSeriesToData_def disabled_mapSeries)
  from r b d show ?thesis by blast
qed

theorem bars_receive_state_data_witness:
  "declares (eventDispatcher (props (construct (props_with [series_a, series_b]) :: ColorFn BarChart))) \<and>
   (\<exists>c' tree.
      render spec_utils (construct (props_with [series_a, series_b]) :: ColorFn BarChart) =
        Inr (c', tree) \<and>
      passed_to_Bars spec_utils (construct (props_with [series_a, series_b]) :: ColorFn BarChart) =
        [state_data (state c')] \<and>
      map disabled (state_data (state c')) = [False, True])"
proof -
  let ?c = "construct (props_with [series_a, series_b]) :: ColorFn BarChart"
  have h1: "declares (eventDispatcher (props ?c))" by (rule sample_declares)
  have d: "map disabled (state_data (state ?c)) = [False, True]"
    by (simp add: sample_state_data series_a_def series_b_def)
  have n: "state_data (state ?c) \<noteq> []" by (simp add: sample_state_data)
  from bars_receive_state_data [OF h1, of spec_utils] obtain c' tree where
    "render spec_utils ?c = Inr (c', tree)"
    "passed_to_Bars spec_utils ?c =
       (if state_data (state ?c) = [] then [] else [state_data (state c')])"
    "map disabled (state_data (state c')) = map disabled (state_data (state ?c))"
    by blast
  with n d h1 show ?thesis by auto
qed

text \<open>
  C3 as stated fails: with one enabled and one disabled series in the state, the array
  handed to Bars holds a disabled series.
\<close>

theorem bars_receive_disabled_series:
  "list_ex (list_ex disabled)
     (passed_to_Bars spec_utils (construct (props_with [series_a, series_b]) :: ColorFn BarChart))"
  by code_simp

subsection \<open>The color scale\<close>

text \<open>
  C4, as the code has it. The state's color is computed once, by \<open>componentWillMount\<close>,
  from the props the component is mounted with; whatever events follow (resizes, new
  props, dispatcher events, unmounting), it is still that value.
\<close>

theorem color_computed_once_at_mount:
  assumes "run_from U p ow es = Inr c"
  shows "color_of_props U p = Inr (state_color (state c)) \<and>
         color_after U p ow es = color_of_props U p"
proof -
  from assms obtain c0 where m: "mount U p ow = Inr c0" and r: "run U c0 es = Inr c"
    by (auto simp: run_from_def split: sum.splits)
  from mount_state_color [OF m] run_state_color [OF r]
  have "color_of_props U p = Inr (state_color (state c))" by simp
  then show ?thesis using assms by (simp add: color_after_def)
qed

theorem color_computed_once_at_mount_witness:
  "(\<exists>c :: ColorFn BarChart. run_from spec_utils (props_with [series_a]) 800
          [Resize 500, ReceiveProps ((props_with [series_a, series_b])\<lparr>useColorScale := False\<rparr>)] =
        Inr c) \<and>
   color_after spec_utils (props_with [series_a]) 800
     [Resize 500, ReceiveProps ((props_with [series_a, series_b])\<lparr>useColorScale := False\<rparr>)] =
     color_of_props spec_utils (props_with [series_a])"
proof -
  let ?es = "[Resize 500, ReceiveProps ((props_with [series_a, series_b])\<lparr>useColorScale := False\<rparr>)]"
  have "color_after spec_utils (props_with [series_a]) 800 ?es =
          Inr (Computed (Gradient 1 ''#008793'' ''#00bf72''))"
    by code_simp
  from color_after_Inr_run [OF this] obtain c :: "ColorFn BarChart" where
    r: "run_from spec_utils (props_with [series_a]) 800 ?es = Inr c" by blast
  from color_computed_once_at_mount [OF r] r show ?thesis by blast
qed

text \<open>
  C4 as stated fails: mounted with one series and the gradient scale, then given props
  with two series and \<open>useColorScale\<close> off, the state's color is not the mapping
  computed from the new props.
\<close>

theorem color_stale_after_prop_change:
  "color_after spec_utils (props_with [series_a]) 800
     [ReceiveProps ((props_with [series_a, series_b])\<lparr>useColorScale := False\<rparr>)] \<noteq>
   color_of_props spec_utils ((props_with [series_a, series_b])\<lparr>useColorScale := False\<rparr>)"
  by code_simp

subsection \<open>Resizing\<close>

text \<open>
  C5, as the code has it. After mounting and any sequence of resize events, the last of
  which leaves the container measuring \<open>ow\<close>: with \<open>fluid\<close> set the state's width is
  \<open>ow\<close> when \<open>ow\<close> is not 0 and the configured width prop when it is 0; with \<open>fluid\<close>
  unset it is the configured width prop.
\<close>

theorem width_after_resizes:
  assumes "data p = Some ds" and "declares (eventDispatcher p)"
  shows "width_after U p ow0 (map Resize (ows @ [ow])) =
           Inr (ow, if fluid p then (if ow \<noteq> 0 then ow else width p) else width p)"
proof -
  from mount_resized [OF assms, of U ow0] obtain c where
    m: "mount U p ow0 = Inr c" and l: "resize_listener c"
    and b: "barChart c = Some \<lparr> offsetWidth = ow0 \<rparr>"
    and d: "declares (eventDispatcher (props c))"
    and f: "fluid (props c) = fluid p" "width (props c) = width p"
    and w: "state_width (state c) =
             (if fluid p then (if ow0 \<noteq> 0 then ow0 else width p) else width p)"
    by blast
  from run_Resizes [OF l b d, of U "ows @ [ow]"] obtain c' where
    r: "run U c (map Resize (ows @ [ow])) = Inr c'"
    and cw: "container_width c' = ow"
    and w': "state_width (state c') =
             (if \<not> fluid (props c) then state_width (state c)
              else if ow \<noteq> 0 then ow else width (props c))"
    by auto
  from m r have "run_from U p ow0 (map Resize (ows @ [ow])) = Inr c'"
    by (simp add: run_from_def)
  then show ?thesis using cw w' w f by (simp add: width_after_def)
qed

theorem width_after_resizes_witness:
  "data (props_with [series_a]) = Some [series_a] \<and>
   declares (eventDispatcher (props_with [series_a])) \<and>
   width_after spec_utils (props_with [series_a]) 800 (map Resize ([320, 0] @ [500])) =
     Inr (500, 500) \<and>
   width_after spec_utils ((props_with [series_a])\<lparr>fluid := False\<rparr>) 800
     (map Resize ([320, 0] @ [500])) = Inr (500, 600)"
proof -
  have h1: "data (props_with [series_a]) = Some [series_a]"
    by (simp add: props_with_def)
  have h2: "declares (eventDispatcher (props_with [series_a]))"
    by (simp add: props_with_def defaultProps_def declares_def dispatch_def)
  have g1: "data ((props_with [series_a])\<lparr>fluid := False\<rparr>) = Some [series_a]"
    by (simp add: props_with_def)
  have g2: "declares (eventDispatcher ((props_with [series_a])\<lparr>fluid := False\<rparr>))"
    using h2 by simp
  have f: "fluid (props_with [series_a])" "width (props_with [series_a]) = 600"
    by (simp_all add: props_with_def defaultProps_def)
  show ?thesis
    using h1 h2 width_after_resizes [OF h1 h2, of spec_utils 800 "[320, 0]" 500]
      width_after_resizes [OF g1 g2, of spec_utils 800 "[320, 0]" 500] f
    by simp
qed

text \<open>
  C5 as stated fails: with \<open>fluid\<close> set and the default width 600, a resize that leaves
  the container measuring 0 sets the state's width to 600, not to the measured 0.
\<close>

theorem fluid_resize_to_zero_keeps_prop_width:
  "width_after spec_utils (props_with [series_a]) 800 [Resize 0] = Inr (0, 600) \<and>
   fluid (props_with [series_a])"
  by code_simp

subsection \<open>The legendClick handler\<close>

text \<open>
  C6. After a render the callback under \<open>legendClick\<close> is the state-replacing one:
  run with payload \<open>d\<close> it leaves \<open>d\<close> as the state's data, and so does a
  \<open>legendClick\<close> call on the dispatcher, which leaves width and color as they were.
\<close>

theorem legendClick_replaces_data:
  assumes "declares (eventDispatcher (props c))"
  shows "\<exists>c' tree c''.
           render U c = Inr (c', tree) \<and>
           dispatcher_get (eventDispatcher (props c')) ''legendClick'' [] = Some SetStateData \<and>
           state_data (state (run_handler SetStateData d c')) = d \<and>
           dispatcher_call (eventDispatcher (props c')) ''legendClick'' d c' = Inr c'' \<and>
           state_data (state c'') = d \<and>
           state_width (state c'') = state_width (state c') \<and>
           state_color (state c'') = state_color (state c')"
proof -
  from render_total [OF assms] obtain c' tree where r: "render U c = Inr (c', tree)"
    by blast
  note reg = render_Inr_dispatcher [OF r]
  from register_handlers_legendClick_last [OF reg] obtain cbs where
    l: "eventDispatcher (props c') ''legendClick'' = Some (cbs @ [([], SetStateData)])"
    by blast
  let ?c'' = "foldl (\<lambda>a cb. run_handler (snd cb) d a) c' (cbs @ [([], SetStateData)])"
  have call: "dispatcher_call (eventDispatcher (props c')) ''legendClick'' d c' = Inr ?c''"
    using l by (simp add: dispatcher_call_def)
  have "state_data (state ?c'') = d"
    by (rule foldl_run_handler_SetStateData)
  moreover have "state_width (state ?c'') = state_width (state c')"
    "state_color (state ?c'') = state_color (state c')"
    by (rule foldl_run_handler_frame)+
  moreover have "state_data (state (run_handler SetStateData d c')) = d" by simp
  ultimately show ?thesis
    using r register_handlers_get(1) [OF reg] call by blast
qed

theorem legendClick_replaces_data_witness:
  "declares (eventDispatcher (props (construct (props_with [series_a, series_b]) :: ColorFn BarChart))) \<and>
   (\<exists>c' tree c''.
      render spec_utils (construct (props_with [series_a, series_b]) :: ColorFn BarChart) = Inr (c', tree) \<and>
      dispatcher_call (eventDispatcher (props c')) ''legendClick'' [series_a] c' = Inr c'' \<and>
      state_data (state c'') = [series_a])"
proof -
  let ?c = "construct (props_with [series_a, series_b]) :: ColorFn BarChart"
  have h1: "declares (eventDispatcher (props ?c))" by (rule sample_declares)
  from legendClick_replaces_data [OF h1, of spec_utils "[series_a]"] h1
  show ?thesis by blast
qed

subsection \<open>Mounting without data\<close>

text \<open>
  C7. There is no default for the \<open>data\<close> prop, and \<open>componentWillMount\<close> reads
  \<open>data.length\<close> of the prop: mounting without data raises a TypeError before anything
  is rendered. (With an empty array mounting succeeds: \<open>mount_empty_data\<close>.)
\<close>

theorem mount_without_data_throws:
  "data defaultProps = None \<and>
   componentWillMount U (construct (p\<lparr>data := None\<rparr>)) = Inl TypeError \<and>
   mount U (p\<lparr>data := None\<rparr>) ow = Inl TypeError \<and>
   mount U defaultProps ow = Inl TypeError"
  by (simp add: defaultProps_def componentWillMount_def construct_def mount_def)

subsection \<open>The bar handlers\<close>

text \<open>
  C8. After a render, the callback registered under each of \<open>barClick\<close>,
  \<open>barMouseOver\<close> and \<open>barMouseOut\<close> leaves the instance, and so its state (data,
  width, color), exactly as it was, whatever the payload.
\<close>

theorem bar_handlers_no_side_effects:
  assumes "declares (eventDispatcher (props c))"
    and "t = ''barClick'' \<or> t = ''barMouseOver'' \<or> t = ''barMouseOut''"
  shows "\<exists>c' tree cb.
           render U c = Inr (c', tree) \<and>
           dispatcher_get (eventDispatcher (props c')) t [] = Some cb \<and>
           run_handler cb d c' = c' \<and>
           state (run_handler cb d c') = state c'"
proof -
  from render_total [OF assms(1)] obtain c' tree where r: "render U c = Inr (c', tree)"
    by blast
  note reg = render_Inr_dispatcher [OF r]
  have "dispatcher_get (eventDispatcher (props c')) t [] = Some Noop"
    using assms(2) register_handlers_get(2-4) [OF reg] by auto
  moreover have "run_handler Noop d c' = c'" by simp
  ultimately show ?thesis using r by force
qed

theorem bar_handlers_no_side_effects_witness:
  "declares (eventDispatcher (props (construct (props_with [series_a]) :: ColorFn BarChart))) \<and>
   (\<exists>c' tree cb.
      render spec_utils (construct (props_with [series_a]) :: ColorFn BarChart) = Inr (c', tree) \<and>
      dispatcher_get (eventDispatcher (props c')) ''barMouseOver'' [] = Some cb \<and>
      state (run_handler cb [series_b] c') = state c')"
proof -
  let ?c = "construct (props_with [series_a]) :: ColorFn BarChart"
  have h1: "declares (eventDispatcher (props ?c))" by (rule sample_declares)
  have h2: "''barMouseOver'' = ''barClick'' \<or> ''barMouseOver'' = ''barMouseOver'' \<or>
            ''barMouseOver'' = ''barMouseOut''" by simp
  from bar_handlers_no_side_effects [OF h1 h2, of spec_utils "[series_b]"] h1
  show ?thesis by blast
qed

subsection \<open>Registration on every render\<close>

text \<open>
  C9. Whatever callbacks the dispatcher held before, after a render the callback under
  the bare name \<open>legendClick\<close> is the state-replacing one and those under \<open>barClick\<close>,
  \<open>barMouseOver\<close> and \<open>barMouseOut\<close> are no-ops; the dispatcher still has the four
  types, so the next render registers again. (Callbacks under a \<open>type.name\<close> are kept:
  \<open>render_keeps_named_callbacks\<close>.)
\<close>

theorem render_registers_handlers:
  assumes "declares (eventDispatcher (props c))"
  shows "\<exists>c' tree.
           render U c = Inr (c', tree) \<and>
           dispatcher_get (eventDispatcher (props c')) ''legendClick'' [] = Some SetStateData \<and>
           dispatcher_get (eventDispatcher (props c')) ''barClick'' [] = Some Noop \<and>
           dispatcher_get (eventDispatcher (props c')) ''barMouseOver'' [] = Some Noop \<and>
           dispatcher_get (eventDispatcher (props c')) ''barMouseOut'' [] = Some Noop \<and>
           declares (eventDispatcher (props c'))"
proof -
  from render_total [OF assms] obtain c' tree where r: "render U c = Inr (c', tree)"
    by blast
  from register_handlers_get [OF render_Inr_dispatcher [OF r]] r show ?thesis by blast
qed

theorem render_registers_handlers_witness:
  "declares (eventDispatcher (props (construct ((props_with [series_a])\<lparr>eventDispatcher := host_dispatcher\<rparr>) :: ColorFn BarChart))) \<and>
   dispatcher_get host_dispatcher ''legendClick'' [] = Some (HostHandler 1) \<and>
   dispatcher_get host_dispatcher ''barClick'' [] = Some (HostHandler 3) \<and>
   (\<exists>c' tree.
      render spec_utils (construct ((props_with [series_a])\<lparr>eventDispatcher := host_dispatcher\<rparr>) :: ColorFn BarChart) = Inr (c', tree) \<and>
      dispatcher_get (eventDispatcher (props c')) ''legendClick'' [] = Some SetStateData \<and>
      dispatcher_get (eventDispatcher (props c')) ''barClick'' [] = Some Noop)"
proof -
  let ?c = "construct ((props_with [series_a])\<lparr>eventDispatcher := host_dispatcher\<rparr>) :: ColorFn BarChart"
  have h1: "declares (eventDispatcher (props ?c))"
    by (simp add: construct_def host_dispatcher_def declares_def dispatch_def)
  have g: "dispatcher_get host_dispatcher ''legendClick'' [] = Some (HostHandler 1)"
    "dispatcher_get host_dispatcher ''barClick'' [] = Some (HostHandler 3)"
    by (simp_all add: host_dispatcher_def dispatcher_get_def get_callback_def)
  from render_registers_handlers [OF h1, of spec_utils] h1 g
  show ?thesis by blast
qed

subsection \<open>The first render of a fluid chart\<close>

text \<open>
  C10, as the code has it. With \<open>fluid\<close> set the state's width starts at 0. The first
  render computes the geometry at width 0, whatever the width prop, and that geometry
  is what it returns: the placeholder of width 0 for empty data, else the wrapper whose
  Legend and Axis get width 0 and whose Legend, Axis and Bars get the margin, plot
  height and scales computed at width 0; the \<open>svg\<close> is not yet sized, and the state's
  width is still 0 after it. Only \<open>componentDidMount\<close>, run once the container is in
  the document, sets the width: to the measured width when that is not 0, to the width
  prop when it is 0; this is the width the mounted instance ends with.
\<close>

theorem first_render_uses_width_zero:
  assumes "fluid p" and "data p = Some ds" and "declares (eventDispatcher p)"
  shows "let g = calculateChartValues U (filter (\<lambda>d. \<not> disabled d) ds) 0 (height p)
                   (margin p) (xScaleType p) (yScaleType p)
         in state_width (initialState p :: 'c State) = 0 \<and>
            (\<exists>c1 c2 tree.
               componentWillMount U (construct p :: 'c BarChart) = Inr c1 \<and>
               render U c1 = Inr (c2, tree) \<and>
               render_chartValues U c1 = g \<and>
               state_width (state c1) = 0 \<and> state_width (state c2) = 0 \<and>
               svg c2 = None \<and>
               (if ds = []
                then tree = [NoData \<lparr> nodata_width = 0, nodata_height = height p,
                                       nodata_noDataMessage = noDataMessage p \<rparr>,
                             JSXNumber 0]
                else \<exists>lg ax br.
                       tree = [JSXFalse, Wrapper lg ax br] \<and>
                       legend_width lg = 0 \<and> legend_margin lg = cv_m g \<and>
                       axis_width ax = 0 \<and> axis_height ax = cv_h g \<and>
                       axis_margin ax = cv_m g \<and>
                       axis_x ax = cv_x g \<and> axis_y ax = cv_y g \<and>
                       bars_height br = cv_h g \<and>
                       bars_x br = cv_x g \<and> bars_y br = cv_y g) \<and>
               state_width (state (componentDidMount (commit c2 tree ow))) =
                 (if ow \<noteq> 0 then ow else width p)) \<and>
            (\<exists>c. mount U p ow = Inr c \<and>
               state_width (state c) = (if ow \<noteq> 0 then ow else width p))"
proof -
  let ?g = "calculateChartValues U (filter (\<lambda>d. \<not> disabled d) ds) 0 (height p)
              (margin p) (xScaleType p) (yScaleType p)"
  let ?c1 = "(construct p)\<lparr>state := (state (construct p))\<lparr>state_color :=
                 Computed (calculateColorScale U (length ds) (useColorScale p)
                             (colorScale p) (colorSchemeCategory p))\<rparr>\<rparr>"
  have i: "state_width (initialState p :: 'c State) = 0"
    using assms(1) by (simp add: initialState_def)
  have w: "componentWillMount U (construct p) = Inr ?c1"
    using assms(2) by (simp add: componentWillMount_def construct_def)
  have "declares (eventDispatcher (props ?c1))"
    using assms(3) by (simp add: construct_def)
  from render_total [OF this] obtain c2 tree where r: "render U ?c1 = Inr (c2, tree)"
    by blast
  have g: "render_chartValues U ?c1 = ?g"
    using assms(1,2) by (simp add: render_chartValues_def construct_def initialState_def)
  have s1: "state_width (state ?c1) = 0"
    using assms(1) by (simp add: construct_def initialState_def)
  have d1: "state_data (state ?c1) = ds"
    using assms(2) by (simp add: construct_def initialState_def)
  have s2: "state_width (state c2) = 0"
    using s1 by (simp add: render_Inr_frame(1) [OF r])
  have v2: "svg c2 = None"
    by (simp add: render_Inr_svg [OF r] construct_def)
  have p2: "props c2 = p\<lparr>eventDispatcher := eventDispatcher (props c2)\<rparr>"
    using render_Inr_frame(2) [OF r] by (simp add: construct_def)
  have f2: "fluid (props c2) = fluid p" "width (props c2) = width p"
    "height (props c2) = height p" "noDataMessage (props c2) = noDataMessage p"
    by (subst p2, simp)+
  have t: "if ds = []
           then tree = [NoData \<lparr> nodata_width = 0, nodata_height = height p,
                                  nodata_noDataMessage = noDataMessage p \<rparr>,
                        JSXNumber 0]
           else \<exists>lg ax br.
                  tree = [JSXFalse, Wrapper lg ax br] \<and>
                  legend_width lg = 0 \<and> legend_margin lg = cv_m ?g \<and>
                  axis_width ax = 0 \<and> axis_height ax = cv_h ?g \<and>
                  axis_margin ax = cv_m ?g \<and>
                  axis_x ax = cv_x ?g \<and> axis_y ax = cv_y ?g \<and>
                  bars_height br = cv_h ?g \<and>
                  bars_x br = cv_x ?g \<and> bars_y br = cv_y ?g"
    using render_Inr_tree [OF r] s1 d1 f2 g by (simp add: Let_def)
  have d: "state_width (state (componentDidMount (commit c2 tree ow))) =
              (if ow \<noteq> 0 then ow else width p)"
    using f2 assms(1) by (simp add: componentDidMount_def updateDimensions_def commit_def)
  have m: "\<exists>c. mount U p ow = Inr c \<and>
            state_width (state c) = (if ow \<noteq> 0 then ow else width p)"
    using mount_resized [OF assms(2,3), of U ow] assms(1) by auto
  have "\<exists>c1 c2 tree.
               componentWillMount U (construct p :: 'c BarChart) = Inr c1 \<and>
               render U c1 = Inr (c2, tree) \<and>
               render_chartValues U c1 = ?g \<and>
               state_width (state c1) = 0 \<and> state_width (state c2) = 0 \<and>
               svg c2 = None \<and>
               (if ds = []
                then tree = [NoData \<lparr> nodata_width = 0, nodata_height = height p,
                                       nodata_noDataMessage = noDataMessage p \<rparr>,
                             JSXNumber 0]
                else \<exists>lg ax br.
                       tree = [JSXFalse, Wrapper lg ax br] \<and>
                       legend_width lg = 0 \<and> legend_margin lg = cv_m ?g \<and>
                       axis_width ax = 0 \<and> axis_height ax = cv_h ?g \<and>
                       axis_margin ax = cv_m ?g \<and>
                       axis_x ax = cv_x ?g \<and> axis_y ax = cv_y ?g \<and>
                       bars_height br = cv_h ?g \<and>
                       bars_x br = cv_x ?g \<and> bars_y br = cv_y ?g) \<and>
               state_width (state (componentDidMount (commit c2 tree ow))) =
                 (if ow \<noteq> 0 then ow else width p)"
    using w r g s1 s2 v2 t d by blast
  with i m show ?thesis unfolding Let_def by blast
qed

theorem first_render_uses_width_zero_witness:
  "fluid (props_with [series_a]) \<and> data (props_with [series_a]) = Some [series_a] \<and>
   declares (eventDispatcher (props_with [series_a])) \<and>
   width (props_with [series_a]) = 600 \<and>
   (\<exists>c1 c2 lg ax br.
      componentWillMount spec_utils (construct (props_with [series_a])) = Inr c1 \<and>
      render spec_utils c1 = Inr (c2, [JSXFalse, Wrapper lg ax br]) \<and>
      legend_width lg = 0 \<and> axis_width ax = 0 \<and>
      x_range (axis_x ax) = (0, - 50) \<and> x_range (bars_x br) = (0, - 50) \<and>
      state_width (state c2) = 0 \<and>
      state_width (state (componentDidMount (commit c2 [JSXFalse, Wrapper lg ax br] 800))) = 800) \<and>
   (\<exists>c. mount spec_utils (props_with [series_a]) 800 = Inr c \<and> state_width (state c) = 800)"
proof -
  let ?p = "props_with [series_a]"
  let ?g = "calculateChartValues spec_utils (filter (\<lambda>d. \<not> disabled d) [series_a]) 0
              (height ?p) (margin ?p) (xScaleType ?p) (yScaleType ?p)"
  have h1: "fluid ?p"
    by (simp add: props_with_def defaultProps_def)
  have h2: "data ?p = Some [series_a]"
    by (simp add: props_with_def)
  have h3: "declares (eventDispatcher ?p)"
    by (simp add: props_with_def defaultProps_def declares_def dispatch_def)
  have w: "width ?p = 600"
    by (simp add: props_with_def defaultProps_def)
  have g: "x_range (cv_x ?g) = (0, - 50)"
    by (simp add: spec_utils_def spec_calculateChartValues_def Let_def props_with_def
        defaultProps_def)
  note t = first_render_uses_width_zero [OF h1 h2 h3, of spec_utils 800, unfolded Let_def]
  from t obtain c1 c2 tree where
    a: "componentWillMount spec_utils (construct ?p) = Inr c1"
      "render spec_utils c1 = Inr (c2, tree)"
      "state_width (state c2) = 0"
      "state_width (state (componentDidMount (commit c2 tree 800))) = 800"
    and b: "\<exists>lg ax br.
              tree = [JSXFalse, Wrapper lg ax br] \<and>
              legend_width lg = 0 \<and> legend_margin lg = cv_m ?g \<and>
              axis_width ax = 0 \<and> axis_height ax = cv_h ?g \<and>
              axis_margin ax = cv_m ?g \<and>
              axis_x ax = cv_x ?g \<and> axis_y ax = cv_y ?g \<and>
              bars_height br = cv_h ?g \<and>
              bars_x br = cv_x ?g \<and> bars_y br = cv_y ?g"
    by auto
  from b obtain lg ax br where
    c: "tree = [JSXFalse, Wrapper lg ax br]" "legend_width lg = 0" "axis_width ax = 0"
      "axis_x ax = cv_x ?g" "bars_x br = cv_x ?g"
    by blast
  have e: "\<exists>c1 c2 lg ax br.
      componentWillMount spec_utils (construct ?p) = Inr c1 \<and>
      render spec_utils c1 = Inr (c2, [JSXFalse, Wrapper lg ax br]) \<and>
      legend_width lg = 0 \<and> axis_width ax = 0 \<and>
      x_range (axis_x ax) = (0, - 50) \<and> x_range (bars_x br) = (0, - 50) \<and>
      state_width (state c2) = 0 \<and>
      state_width (state (componentDidMount (commit c2 [JSXFalse, Wrapper lg ax br] 800))) = 800"
    using a c g by auto
  from t have m: "\<exists>c. mount spec_utils ?p 800 = Inr c \<and> state_width (state c) = 800"
    by auto
  from h1 h2 h3 w e m show ?thesis by blast
qed

text \<open>
  C10 as stated fails: a fluid chart with the default width 600 whose container measures
  0 when it is mounted ends with the state's width 600, not with the measured 0.
\<close>

theorem fluid_mount_at_zero_keeps_prop_width:
  "width_after spec_utils (props_with [series_a]) 0 [] = Inr (0, 600) \<and>
   fluid (props_with [series_a])"
  by code_simp

end
